theory Spec2Isabelle
  imports Complex_Main
begin

section \<open>Data model (model.h)\<close>

text \<open>
  The C++ \<open>double\<close> and \<open>realtype\<close> are modelled as \<open>real\<close> (exact arithmetic,
  no rounding, no infinities); \<open>log\<close> is \<open>ln\<close>. Counts and loop indices that start
  at zero and only grow are \<open>nat\<close>; \<open>save_time\<close>, which receives a converted
  \<open>double\<close>, is \<open>int\<close>. An owned array together with its length field is a list:
  \<open>number_species\<close> and \<open>number_reactions\<close> are the lengths of the two arrays of
  the model.
\<close>

record Species =
  species_name :: string
  initial_population :: nat
  user_mode :: int
  partition_mode :: int
  switch_tol :: real
  switch_min :: nat

record Reaction =
  reaction_name :: string
  species_change :: "int list"
  affected_reactions :: "nat list"

record Model =
  species :: "Species list"
  reactions :: "Reaction list"

definition number_species :: "Model \<Rightarrow> nat" where
  "number_species m = length (species m)"

definition number_reactions :: "Model \<Rightarrow> nat" where
  "number_reactions m = length (reactions m)"

text \<open>The interface \<open>IPropensityFunction\<close>; the solver calls \<open>ODEEvaluate\<close> only.\<close>

record IPropensityFunction =
  ODEEvaluate :: "nat \<Rightarrow> real list \<Rightarrow> real"

record Simulation =
  model :: Model
  sim_type :: int
  timeline :: "real list"
  end_time :: real
  current_time :: real
  random_seed :: int
  number_timesteps :: nat
  number_trajectories :: nat
  trajectories :: "nat list list list"
  trajectoriesODE :: "real list list list"
  trajectoriesHYBRID :: "int list list list"
  propensity_function :: IPropensityFunction

record UserData =
  my_sim :: Simulation

section \<open>Outcomes of a run\<close>

text \<open>
  An access outside an array is undefined behaviour in the source; the model stops there
  with \<open>Fault\<close>. A \<open>while\<close> loop of the source takes a bound on its iterations and
  gives \<open>Timeout\<close> when the bound is used up.
\<close>

datatype error = OutOfBounds int nat

datatype 'a outcome = Ok 'a | Fault error | Timeout

fun andThen :: "'a outcome \<Rightarrow> ('a \<Rightarrow> 'b outcome) \<Rightarrow> 'b outcome" where
  "andThen (Ok v) k = k v"
| "andThen (Fault e) k = Fault e"
| "andThen Timeout k = Timeout"

definition rd :: "'a list \<Rightarrow> nat \<Rightarrow> 'a outcome" where
  "rd xs i = (if i < length xs then Ok (xs ! i) else Fault (OutOfBounds (int i) (length xs)))"

definition wr :: "'a list \<Rightarrow> nat \<Rightarrow> 'a \<Rightarrow> 'a list outcome" where
  "wr xs i v = (if i < length xs then Ok (xs[i := v]) else Fault (OutOfBounds (int i) (length xs)))"

text \<open>A store into a cell \<open>b[i][j][k]\<close> of a buffer of three dimensions.\<close>

definition wr3 :: "'a list list list \<Rightarrow> nat \<Rightarrow> nat \<Rightarrow> nat \<Rightarrow> 'a \<Rightarrow> 'a list list list outcome" where
  "wr3 b i j k v =
     andThen (rd b i) (\<lambda>plane.
     andThen (rd plane j) (\<lambda>row.
     andThen (wr row k v) (\<lambda>row'.
     Ok (b[i := plane[j := row']]))))"

text \<open>
  A \<open>for\<close> loop whose body changes neither the index nor the bound runs its body at the
  indices of the range, in order, and stops at the first body that does not return.
\<close>

fun for_loop :: "nat list \<Rightarrow> (nat \<Rightarrow> 's \<Rightarrow> 's outcome) \<Rightarrow> 's \<Rightarrow> 's outcome" where
  "for_loop [] body s = Ok s"
| "for_loop (i # is) body s = andThen (body i s) (for_loop is body)"

text \<open>
  A \<open>for\<close> loop with a condition in front of the test of the bound,
  \<open>for (i = a; c && i < b; ++i)\<close>, where the body changes neither \<open>i\<close> nor \<open>b\<close>.
\<close>

function for_guarded :: "bool \<Rightarrow> nat \<Rightarrow> nat \<Rightarrow> (nat \<Rightarrow> 's \<Rightarrow> 's outcome) \<Rightarrow> 's \<Rightarrow> 's outcome" where
  "for_guarded c b i body s =
     (if c \<and> i < b then andThen (body i s) (\<lambda>s'. for_guarded c b (i + 1) body s') else Ok s)"
  by pat_completeness auto
termination
  by (relation "measure (\<lambda>(c, b, i, body, s). b - i)") auto

text \<open>The conversion of a \<open>double\<close> to \<open>int\<close> drops the fraction (towards zero).\<close>

definition double_to_int :: "real \<Rightarrow> int" where
  "double_to_int x = (if 0 \<le> x then \<lfloor>x\<rfloor> else \<lceil>x\<rceil>)"

section \<open>The right-hand side \<open>f\<close> (TauHybridCSolver.cpp)\<close>

text \<open>
  \<open>f\<close> receives the vectors \<open>y\<close> and \<open>ydot\<close> and returns both as it leaves them,
  with its return value. \<open>rxn_offsets\<close> is the pointer \<open>&Y[num_species]\<close>, so
  \<open>rxn_offsets[i]\<close> is the cell \<open>Y[num_species + i]\<close>.
\<close>

definition f_copy_step :: "real list \<Rightarrow> nat \<Rightarrow> real list \<times> real list \<Rightarrow> (real list \<times> real list) outcome" where
  "f_copy_step Y spec_i cd =
     (case cd of (concentrations, dydt) \<Rightarrow>
       andThen (rd Y spec_i) (\<lambda>v.
       andThen (wr concentrations spec_i v) (\<lambda>concentrations'.
       andThen (wr dydt spec_i 0) (\<lambda>dydt'.
       Ok (concentrations', dydt')))))"

definition f_species_step :: "Simulation \<Rightarrow> nat \<Rightarrow> real \<Rightarrow> nat \<Rightarrow> real list \<Rightarrow> real list outcome" where
  "f_species_step sim rxn_i propensity spec_i dydt =
     andThen (rd (species_change (reactions (model sim) ! rxn_i)) spec_i) (\<lambda>species_change.
       if species_change = 0 then Ok dydt
       else andThen (rd dydt spec_i) (\<lambda>d.
            wr dydt spec_i
              (d + propensity * real_of_int (- 1 + 2 * (if species_change > 0 then 1 else 0)))))"

definition f_reaction_step :: "Simulation \<Rightarrow> real list \<Rightarrow> nat \<Rightarrow> real list \<times> real list \<Rightarrow> (real list \<times> real list) outcome" where
  "f_reaction_step sim concentrations rxn_i yd =
     (case yd of (Y, dydt) \<Rightarrow>
       (let num_species = number_species (model sim);
            rxn_offset_i = rxn_i + num_species;
            propensity = ODEEvaluate (propensity_function sim) rxn_i concentrations
        in andThen (rd Y rxn_offset_i) (\<lambda>y.
           andThen (wr Y (num_species + rxn_offset_i) (y + propensity)) (\<lambda>Y'.
           andThen (for_loop [0..<number_species (model sim)]
                      (f_species_step sim rxn_i propensity) dydt) (\<lambda>dydt'.
           Ok (Y', dydt'))))))"

definition f :: "real \<Rightarrow> real list \<Rightarrow> real list \<Rightarrow> UserData \<Rightarrow> (real list \<times> real list \<times> int) outcome" where
  "f t Y dydt user_data =
     (let sim = my_sim user_data in
      andThen (for_loop [0..<number_species (model sim)] (f_copy_step Y)
                 (replicate (number_species (model sim)) 0, dydt)) (\<lambda>cd.
      andThen (for_loop [0..<number_reactions (model sim)]
                 (f_reaction_step sim (fst cd)) (Y, snd cd)) (\<lambda>yd.
      Ok (fst yd, snd yd, 0))))"

section \<open>What the solver takes from its libraries\<close>

text \<open>
  The SUNDIALS integrator and the generator of the C++ library are not code of this
  repository; the solver is modelled over them. \<open>mt19937_64_default\<close> is the state of
  a default-constructed \<open>std::mt19937_64\<close>, \<open>uniform\<close> one draw of
  \<open>std::uniform_real_distribution<double>(0, 1)\<close>. \<open>CVodeInit\<close> stands for the
  calls that build the integrator (\<open>CVodeCreate\<close>, \<open>CVodeInit\<close>,
  \<open>CVodeSStolerances\<close>, \<open>SUNLinSol_SPGMR\<close>, \<open>CVodeSetUserData\<close>,
  \<open>CVodeSetLinearSolver\<close>) from the right-hand side, the start time and the start
  vector; \<open>CVode\<close> takes the integrator, the target time and the vector, and gives the
  integrator, the vector, the time reached and the flag.
\<close>

record ('m, 'g) extern =
  mt19937_64_default :: 'g
  uniform :: "'g \<Rightarrow> real \<times> 'g"
  CVodeInit :: "(real \<Rightarrow> real list \<Rightarrow> real list \<Rightarrow> (real list \<times> real list \<times> int) outcome)
                  \<Rightarrow> real \<Rightarrow> real list \<Rightarrow> 'm"
  CVode :: "'m \<Rightarrow> real \<Rightarrow> real list \<Rightarrow> 'm \<times> real list \<times> real \<times> int"

text \<open>The global flag \<open>interrupted\<close> and the installed handler of \<open>SIGINT\<close>.\<close>

record world =
  interrupted :: bool
  sigint_handler_installed :: bool

definition signalHandler :: "world \<Rightarrow> world" where
  "signalHandler w = w\<lparr>interrupted := True\<rparr>"

section \<open>The solver \<open>TauHybridCSolver\<close>\<close>

text \<open>
  The local variables of the solver inside the step loop of one trajectory. The return
  codes kept in \<open>flag\<close> are never read and are left out. \<open>next_time\<close> is declared
  without a value and assigned at the top of every iteration before it is read; the
  record starts it at \<open>0\<close>.
\<close>

record ('m, 'g) locals =
  simulation :: Simulation
  current_state :: "real list"
  rng :: 'g
  y0 :: "real list"
  cvode_mem :: 'm
  next_time :: real
  tau_step :: real
  save_time :: int
  population_changes :: "int list"

text \<open>\<open>N_VNew_Serial n\<close>: a vector of \<open>n\<close> cells (their first content is never read).\<close>

definition N_VNew_Serial :: "nat \<Rightarrow> real list" where
  "N_VNew_Serial n = replicate n 0"

subsection \<open>Setting up\<close>

text \<open>The loop before the trajectories: the initial state goes to the cell \<open>[0][0][s]\<close>.\<close>

definition copy_initial_step :: "nat \<Rightarrow> Simulation \<times> real list \<Rightarrow> (Simulation \<times> real list) outcome" where
  "copy_initial_step s p =
     (case p of (sim, cur) \<Rightarrow>
       andThen (wr3 (trajectoriesODE sim) 0 0 s
                  (real (initial_population (species (model sim) ! s)))) (\<lambda>b.
       andThen (wr cur s (real (initial_population (species (model sim) ! s)))) (\<lambda>cs.
       Ok (sim\<lparr>trajectoriesODE := b\<rparr>, cs))))"

definition init_state_step :: "Simulation \<Rightarrow> nat \<Rightarrow> real list \<Rightarrow> real list outcome" where
  "init_state_step sim spec_i cur =
     wr cur spec_i (real (initial_population (species (model sim) ! spec_i)))"

definition init_conc_step :: "Simulation \<Rightarrow> nat \<Rightarrow> real list \<Rightarrow> real list outcome" where
  "init_conc_step sim spec_i y =
     wr y spec_i (real (initial_population (species (model sim) ! spec_i)))"

definition init_offset_step :: "('m, 'g) extern \<Rightarrow> nat \<Rightarrow> real list \<times> 'g \<Rightarrow> (real list \<times> 'g) outcome" where
  "init_offset_step ext rxn_i yg =
     (case yg of (y, g) \<Rightarrow>
       (case uniform ext g of (u, g') \<Rightarrow>
         andThen (wr y rxn_i (ln u)) (\<lambda>y'. Ok (y', g'))))"

subsection \<open>Reconciliation of the firings\<close>

text \<open>
  The inner \<open>for\<close> loop of a firing: it adds the reaction's change of each species to
  \<open>population_changes\<close> and leaves at the first species whose projected population is
  negative.
\<close>

function fire_species :: "nat \<Rightarrow> nat \<Rightarrow> ('m, 'g) locals \<Rightarrow> ('m, 'g) locals outcome" where
  "fire_species rxn_i spec_i st =
     (if spec_i < number_species (model (simulation st)) then
        andThen (rd (reactions (model (simulation st))) rxn_i) (\<lambda>rxn.
        andThen (rd (species_change rxn) spec_i) (\<lambda>sc.
        andThen (rd (population_changes st) spec_i) (\<lambda>pc.
        andThen (wr (population_changes st) spec_i (pc + sc)) (\<lambda>pcs.
        andThen (rd (current_state st) spec_i) (\<lambda>cs.
          if cs + real_of_int (pc + sc) < 0 then Ok (st\<lparr>population_changes := pcs\<rparr>)
          else fire_species rxn_i (spec_i + 1) (st\<lparr>population_changes := pcs\<rparr>))))))
      else Ok st)"
  by pat_completeness auto
termination
  by (relation "measure (\<lambda>(rxn_i, spec_i, st). number_species (model (simulation st)) - spec_i)") auto

declare fire_species.simps [simp del]

text \<open>The loop \<open>while (rxn_state >= 0)\<close>, with a bound on its iterations.\<close>

fun count_firings :: "nat \<Rightarrow> ('m, 'g) extern \<Rightarrow> nat \<Rightarrow> real \<Rightarrow> ('m, 'g) locals \<Rightarrow> (real \<times> ('m, 'g) locals) outcome" where
  "count_firings 0 ext rxn_i rxn_state st = Timeout"
| "count_firings (Suc n) ext rxn_i rxn_state st =
     (if rxn_state \<ge> 0 then
        andThen (fire_species rxn_i 0 st) (\<lambda>st'.
          case uniform ext (rng st') of (u, g') \<Rightarrow>
            count_firings n ext rxn_i (rxn_state + ln u) (st'\<lparr>rng := g'\<rparr>))
      else Ok (rxn_state, st))"

definition zero_changes_step :: "nat \<Rightarrow> int list \<Rightarrow> int list outcome" where
  "zero_changes_step p_i pcs = wr pcs p_i 0"

definition commit_step :: "int list \<Rightarrow> nat \<Rightarrow> real list \<Rightarrow> real list outcome" where
  "commit_step pcs p_i cur =
     andThen (rd cur p_i) (\<lambda>c.
     andThen (rd pcs p_i) (\<lambda>d.
     wr cur p_i (c + real_of_int d)))"

text \<open>
  The body of the reconciliation loop for the index \<open>rxn_i\<close>. \<open>rxn_offsets\<close> is the
  pointer \<open>NV_DATA_S(y0) + num_species\<close>.
\<close>

definition reconcile_reaction :: "('m, 'g) extern \<Rightarrow> nat \<Rightarrow> nat \<Rightarrow> ('m, 'g) locals \<Rightarrow> ('m, 'g) locals outcome" where
  "reconcile_reaction ext fuel rxn_i st =
     (let num_species = number_species (model (simulation st)) in
      andThen (rd (y0 st) (num_species + rxn_i)) (\<lambda>rxn_state.
      andThen (for_loop [0..<num_species] zero_changes_step (population_changes st)) (\<lambda>pcs.
      andThen (count_firings fuel ext rxn_i rxn_state (st\<lparr>population_changes := pcs\<rparr>)) (\<lambda>rs.
        if fst rs < 0 then
          andThen (for_loop [0..<num_species] (commit_step (population_changes (snd rs)))
                     (current_state (snd rs))) (\<lambda>cs.
          andThen (wr (y0 (snd rs)) (num_species + rxn_i) (fst rs)) (\<lambda>y.
          Ok ((snd rs)\<lparr>current_state := cs, y0 := y\<rparr>)))
        else
          Ok ((snd rs)\<lparr>next_time := current_time (simulation (snd rs)),
                         tau_step := tau_step (snd rs) * 0.5\<rparr>)))))"

text \<open>
  The reconciliation loop
  \<open>for (int rxn_i = num_species; false && rxn_i < rxn_offset_boundary; ++rxn_i)\<close>.
\<close>

definition reconcile_loop :: "('m, 'g) extern \<Rightarrow> nat \<Rightarrow> nat \<Rightarrow> nat \<Rightarrow> ('m, 'g) locals \<Rightarrow> ('m, 'g) locals outcome" where
  "reconcile_loop ext fuel rxn_offset_boundary num_species st =
     for_guarded False rxn_offset_boundary num_species (reconcile_reaction ext fuel) st"

subsection \<open>Writing the results of a step\<close>

definition emit_species_step :: "nat \<Rightarrow> nat \<Rightarrow> ('m, 'g) locals \<Rightarrow> ('m, 'g) locals outcome" where
  "emit_species_step traj spec_i st =
     andThen (rd (y0 st) spec_i) (\<lambda>v.
       if save_time st < 0 then
         Fault (OutOfBounds (save_time st) (number_timesteps (simulation st)))
       else
         andThen (wr3 (trajectoriesODE (simulation st)) traj (nat (save_time st)) spec_i v) (\<lambda>b.
         Ok (st\<lparr>simulation := (simulation st)\<lparr>trajectoriesODE := b\<rparr>\<rparr>)))"

text \<open>
  The loop \<open>while (save_time <= next_time)\<close>, with a bound on its iterations;
  \<open>save_time += increment\<close> adds a \<open>double\<close> to an \<open>int\<close> and converts the sum
  back.
\<close>

fun emit_loop :: "nat \<Rightarrow> nat \<Rightarrow> real \<Rightarrow> ('m, 'g) locals \<Rightarrow> ('m, 'g) locals outcome" where
  "emit_loop 0 traj increment st = Timeout"
| "emit_loop (Suc n) traj increment st =
     (if real_of_int (save_time st) \<le> next_time st then
        andThen (for_loop [0..<number_species (model (simulation st))] (emit_species_step traj) st)
          (\<lambda>st'. emit_loop n traj increment
                   (st'\<lparr>save_time := double_to_int (real_of_int (save_time st') + increment)\<rparr>))
      else Ok st)"

subsection \<open>The step loop, the trajectories and the solver\<close>

text \<open>One iteration of \<open>while (simulation->current_time < simulation->end_time)\<close>.\<close>

definition step :: "('m, 'g) extern \<Rightarrow> nat \<Rightarrow> nat \<Rightarrow> real \<Rightarrow> ('m, 'g) locals \<Rightarrow> ('m, 'g) locals outcome" where
  "step ext fuel traj increment st =
     (let num_species = number_species (model (simulation st));
          num_reactions = number_reactions (model (simulation st));
          rxn_offset_boundary = num_species + num_reactions;
          r = CVode ext (cvode_mem st) (current_time (simulation st) + tau_step st) (y0 st);
          st1 = st\<lparr>cvode_mem := fst r, y0 := fst (snd r), next_time := fst (snd (snd r))\<rparr>
      in andThen (reconcile_loop ext fuel rxn_offset_boundary num_species st1) (\<lambda>st2.
           emit_loop fuel traj increment
             (st2\<lparr>simulation := (simulation st2)\<lparr>current_time := next_time st2\<rparr>\<rparr>)))"

fun main_loop :: "nat \<Rightarrow> ('m, 'g) extern \<Rightarrow> nat \<Rightarrow> nat \<Rightarrow> real \<Rightarrow> ('m, 'g) locals \<Rightarrow> ('m, 'g) locals outcome" where
  "main_loop 0 ext fuel traj increment st = Timeout"
| "main_loop (Suc n) ext fuel traj increment st =
     (if current_time (simulation st) < end_time (simulation st) then
        andThen (step ext fuel traj increment st) (main_loop n ext fuel traj increment)
      else Ok st)"

text \<open>
  The body of the loop over the trajectories, on what lives across them: the simulation,
  \<open>current_state\<close> and \<open>rng\<close>.
\<close>

definition trajectory :: "('m, 'g) extern \<Rightarrow> nat \<Rightarrow> nat \<Rightarrow> real \<Rightarrow> Simulation \<times> real list \<times> 'g \<Rightarrow> (Simulation \<times> real list \<times> 'g) outcome" where
  "trajectory ext fuel traj increment p =
     (case p of (sim, current_state0, rng0) \<Rightarrow>
       (let num_species = number_species (model sim);
            num_reactions = number_reactions (model sim);
            rxn_offset_boundary = num_species + num_reactions
        in andThen (for_loop [0..<num_species] (init_state_step sim) current_state0) (\<lambda>cs.
           andThen (for_loop [0..<num_species] (init_conc_step sim) (N_VNew_Serial num_species)) (\<lambda>y1.
           andThen (for_loop [num_species..<rxn_offset_boundary] (init_offset_step ext) (y1, rng0)) (\<lambda>yg.
           andThen (main_loop fuel ext fuel traj increment
                      \<lparr>simulation = sim, current_state = cs, rng = snd yg, y0 = fst yg,
                       cvode_mem = CVodeInit ext (\<lambda>t y ydot. f t y ydot \<lparr>my_sim = sim\<rparr>) 0 (fst yg),
                       next_time = 0, tau_step = increment, save_time = 0,
                       population_changes = replicate num_species 0\<rparr>) (\<lambda>st.
           Ok (simulation st, current_state st, rng st)))))))"

text \<open>The loop over the trajectories leaves at once when \<open>interrupted\<close> is set.\<close>

fun traj_loop :: "('m, 'g) extern \<Rightarrow> nat \<Rightarrow> world \<Rightarrow> real \<Rightarrow> nat list \<Rightarrow> Simulation \<times> real list \<times> 'g \<Rightarrow> (Simulation \<times> real list \<times> 'g) outcome" where
  "traj_loop ext fuel w increment [] p = Ok p"
| "traj_loop ext fuel w increment (traj # rest) p =
     (if interrupted w then Ok p
      else andThen (trajectory ext fuel traj increment p) (traj_loop ext fuel w increment rest))"

text \<open>
  The variables that the solver declares before its loops: \<open>current_state\<close>, a vector
  of \<open>num_species\<close> zeros, and the generator \<open>std::mt19937_64 rng;\<close>, which is
  default-constructed.
\<close>

definition solver_setup :: "('m, 'g) extern \<Rightarrow> Simulation \<Rightarrow> Simulation \<times> real list \<times> 'g" where
  "solver_setup ext sim = (sim, replicate (number_species (model sim)) 0, mt19937_64_default ext)"

text \<open>
  The solver. A null pointer is \<open>None\<close>. The result is the world and the simulation as
  the call leaves them. The flag \<open>interrupted\<close> is read as the call finds it: a signal
  that arrives during the call is not modelled.
\<close>

definition TauHybridCSolver :: "('m, 'g) extern \<Rightarrow> nat \<Rightarrow> world \<Rightarrow> Simulation option \<Rightarrow> real \<Rightarrow> (world \<times> Simulation option) outcome" where
  "TauHybridCSolver ext fuel w sim_ptr tau_tol =
     (let w1 = w\<lparr>sigint_handler_installed := True\<rparr> in
      case sim_ptr of
        None \<Rightarrow> Ok (w1, None)
      | Some sim \<Rightarrow>
          (let num_species = number_species (model sim);
               num_trajectories = number_trajectories sim
           in andThen (rd (timeline sim) 1) (\<lambda>t1.
              andThen (rd (timeline sim) 0) (\<lambda>t0.
              andThen (for_loop [0..<num_species] copy_initial_step
                         (fst (solver_setup ext sim), fst (snd (solver_setup ext sim)))) (\<lambda>sc.
              andThen (traj_loop ext fuel w1 (t1 - t0) [0..<num_trajectories]
                         (fst sc, snd sc, snd (snd (solver_setup ext sim)))) (\<lambda>p.
              Ok (w1, Some (fst p))))))))"

section \<open>Inputs for the examples\<close>

text \<open>
  A stand-in for the libraries: the generator is a counter that starts at the default
  seed \<open>5489\<close> of \<open>std::mt19937_64\<close> and draws \<open>1/2\<close> each time; the integrator
  keeps the right-hand side and its time, and \<open>CVode\<close> takes one explicit Euler step
  to the target time (it gives the flag \<open>-1\<close> and stays where it is when the
  right-hand side does not return).
\<close>

type_synonym rhs = "real \<Rightarrow> real list \<Rightarrow> real list \<Rightarrow> (real list \<times> real list \<times> int) outcome"

definition euler_extern :: "(rhs \<times> real, nat) extern" where
  "euler_extern =
     \<lparr>mt19937_64_default = 5489,
      uniform = (\<lambda>g. (1 / 2, Suc g)),
      CVodeInit = (\<lambda>rhs t0 y. (rhs, t0)),
      CVode = (\<lambda>m tout y.
        case fst m (snd m) y (replicate (length y) 0) of
          Ok r \<Rightarrow> ((fst m, tout), map2 (\<lambda>a d. a + (tout - snd m) * d) (fst r) (fst (snd r)), tout, 0)
        | Fault e \<Rightarrow> (m, y, snd m, - 1)
        | Timeout \<Rightarrow> (m, y, snd m, - 1))\<rparr>"

text \<open>
  Discrete species and two models with reactions: the decay \<open>A \<rightarrow> \<emptyset>\<close> with the
  propensity \<open>3/2 * A\<close>, and the dimerisation \<open>2A \<rightarrow> B\<close>, \<open>B \<rightarrow> 2A\<close> with the
  propensities \<open>A/2\<close> and \<open>B\<close>.
\<close>

definition species_named :: "string \<Rightarrow> nat \<Rightarrow> Species" where
  "species_named nm n = \<lparr>species_name = nm, initial_population = n, user_mode = 1,
                          partition_mode = 1, switch_tol = 3 / 100, switch_min = 0\<rparr>"

definition decay :: Reaction where
  "decay = \<lparr>reaction_name = ''decay'', species_change = [- 1], affected_reactions = [0]\<rparr>"

definition decay_propensity :: IPropensityFunction where
  "decay_propensity = \<lparr>ODEEvaluate = (\<lambda>r S. 3 / 2 * (S ! 0))\<rparr>"

definition dimerise :: Reaction where
  "dimerise = \<lparr>reaction_name = ''dimerise'', species_change = [- 2, 1], affected_reactions = [0, 1]\<rparr>"

definition dissociate :: Reaction where
  "dissociate = \<lparr>reaction_name = ''dissociate'', species_change = [2, - 1], affected_reactions = [0, 1]\<rparr>"

definition dimer_propensity :: IPropensityFunction where
  "dimer_propensity = \<lparr>ODEEvaluate = (\<lambda>r S. if r = 0 then S ! 0 / 2 else S ! 1)\<rparr>"

definition idle_model :: Model where
  "idle_model = \<lparr>species = [species_named ''A'' 5], reactions = []\<rparr>"

definition decay_model :: Model where
  "decay_model = \<lparr>species = [species_named ''A'' 1], reactions = [decay]\<rparr>"

definition dimer_model :: Model where
  "dimer_model = \<lparr>species = [species_named ''A'' 1, species_named ''B'' 1],
                   reactions = [dimerise, dissociate]\<rparr>"

text \<open>
  A simulation as the caller hands it over: time \<open>0\<close>, the end time the last point of
  the timeline, and buffers of zeros of \<open>ntraj\<close> trajectories by the points of the
  timeline by the species.
\<close>

definition sim_of :: "Model \<Rightarrow> IPropensityFunction \<Rightarrow> real list \<Rightarrow> nat \<Rightarrow> int \<Rightarrow> Simulation" where
  "sim_of m pf tline ntraj seed =
     \<lparr>model = m, sim_type = 4, timeline = tline, end_time = last tline, current_time = 0,
      random_seed = seed, number_timesteps = length tline, number_trajectories = ntraj,
      trajectories = replicate ntraj (replicate (length tline) (replicate (number_species m) 0)),
      trajectoriesODE = replicate ntraj (replicate (length tline) (replicate (number_species m) 0)),
      trajectoriesHYBRID = replicate ntraj (replicate (length tline) (replicate (number_species m) 0)),
      propensity_function = pf\<rparr>"

definition idle_sim :: "real list \<Rightarrow> nat \<Rightarrow> Simulation" where
  "idle_sim tline ntraj = sim_of idle_model decay_propensity tline ntraj 7"

definition decay_sim :: Simulation where
  "decay_sim = sim_of decay_model decay_propensity [0, 1] 1 7"

definition dimer_sim :: Simulation where
  "dimer_sim = sim_of dimer_model dimer_propensity [0, 1] 1 7"

definition quiet_world :: world where
  "quiet_world = \<lparr>interrupted = False, sigint_handler_installed = False\<rparr>"

text \<open>
  States of the step loop at time \<open>0\<close> for the two models with reactions, with the
  populations at their initial values and a vector long enough for every cell that a step
  reads or writes: the concentrations, a cell at \<open>1/4\<close> for the offset of each
  reaction, and as many cells again. No run of the solver is in these states: the vector
  that the solver allocates has \<open>num_species\<close> cells, and a trajectory of a model with a
  reaction stops at the store of the first offset. They show what a step does to a model
  with reactions once the vector is there.
\<close>

definition decay_locals :: "(rhs \<times> real, nat) locals" where
  "decay_locals =
     \<lparr>simulation = decay_sim, current_state = [1], rng = 5489,
      y0 = [1, 1 / 4, 0],
      cvode_mem = (\<lambda>t y ydot. f t y ydot \<lparr>my_sim = decay_sim\<rparr>, 0),
      next_time = 0, tau_step = 1, save_time = 0, population_changes = [0]\<rparr>"


text \<open>
  The state in which the solver enters the step loop of the first trajectory of
  \<open>idle_sim [0, 1] 1\<close> (lemma \<open>idle_locals_reached\<close> below).
\<close>

definition idle_started :: Simulation where
  "idle_started = (idle_sim [0, 1] 1)\<lparr>trajectoriesODE := [[[5], [0]]]\<rparr>"

definition idle_locals :: "(rhs \<times> real, nat) locals" where
  "idle_locals =
     \<lparr>simulation = idle_started, current_state = [5], rng = 5489, y0 = [5],
      cvode_mem = (\<lambda>t y ydot. f t y ydot \<lparr>my_sim = idle_started\<rparr>, 0),
      next_time = 0, tau_step = 1, save_time = 0, population_changes = [0]\<rparr>"

text \<open>The three states after one step with the stand-in, the time step being \<open>1\<close>.\<close>

definition idle_locals_after :: "(rhs \<times> real, nat) locals" where
  "idle_locals_after =
     idle_locals\<lparr>simulation := idle_started\<lparr>current_time := 1, trajectoriesODE := [[[5], [5]]]\<rparr>,
                 cvode_mem := (\<lambda>t y ydot. f t y ydot \<lparr>my_sim = idle_started\<rparr>, 1),
                 next_time := 1, save_time := 2\<rparr>"

definition decay_locals_after :: "(rhs \<times> real, nat) locals" where
  "decay_locals_after =
     decay_locals\<lparr>simulation := decay_sim\<lparr>current_time := 1,
                       trajectoriesODE := [[[- (1 / 2)], [- (1 / 2)]]]\<rparr>,
                  y0 := [- (1 / 2), 1 / 4, 7 / 4],
                  cvode_mem := (\<lambda>t y ydot. f t y ydot \<lparr>my_sim = decay_sim\<rparr>, 1),
                  next_time := 1, save_time := 2\<rparr>"


section \<open>Reading a result\<close>

text \<open>
  The local variables beside \<open>save_time\<close> and the output buffer, which are all that the
  loop writing the results may change.
\<close>

definition beside_output :: "('m, 'g) locals \<Rightarrow> real list \<times> 'g \<times> real list \<times> 'm \<times> real \<times> real \<times> int list \<times> Simulation" where
  "beside_output st = (current_state st, rng st, y0 st, cvode_mem st, next_time st, tau_step st,
     population_changes st, (simulation st)\<lparr>trajectoriesODE := []\<rparr>)"


fun map_outcome :: "('a \<Rightarrow> 'b) \<Rightarrow> 'a outcome \<Rightarrow> 'b outcome" where
  "map_outcome h (Ok v) = Ok (h v)"
| "map_outcome h (Fault e) = Fault e"
| "map_outcome h Timeout = Timeout"

text \<open>The output buffer of the solver's result.\<close>

definition output_of :: "(world \<times> Simulation option) outcome \<Rightarrow> real list list list outcome" where
  "output_of r = map_outcome (\<lambda>p. case snd p of None \<Rightarrow> [] | Some sim \<Rightarrow> trajectoriesODE sim) r"

text \<open>The simulation with another value in the field \<open>random_seed\<close>.\<close>

definition reseed :: "int \<Rightarrow> Simulation \<Rightarrow> Simulation" where
  "reseed a sim = sim\<lparr>random_seed := a\<rparr>"

definition reseed_locals :: "int \<Rightarrow> ('m, 'g) locals \<Rightarrow> ('m, 'g) locals" where
  "reseed_locals a st = st\<lparr>simulation := reseed a (simulation st)\<rparr>"

definition reseed_state :: "int \<Rightarrow> Simulation \<times> 's \<Rightarrow> Simulation \<times> 's" where
  "reseed_state a p = (reseed a (fst p), snd p)"

definition reseed_result :: "int \<Rightarrow> world \<times> Simulation option \<Rightarrow> world \<times> Simulation option" where
  "reseed_result a r = (fst r, map_option (reseed a) (snd r))"

text \<open>
  The generator as the specification words it, for the comparison with \<open>solver_setup\<close>:
  seeded from the field \<open>random_seed\<close>, and from the device when the field is zero.
\<close>

definition spec_seeded_rng :: "(int \<Rightarrow> 'g) \<Rightarrow> 'g \<Rightarrow> Simulation \<Rightarrow> 'g" where
  "spec_seeded_rng seed_rng device_rng sim =
     (if random_seed sim = 0 then device_rng else seed_rng (random_seed sim))"

section \<open>Basic facts\<close>

lemmas model_defs = number_species_def number_reactions_def sim_of_def idle_model_def
  decay_model_def dimer_model_def species_named_def decay_def decay_propensity_def dimerise_def
  dissociate_def dimer_propensity_def quiet_world_def idle_sim_def decay_sim_def dimer_sim_def

lemmas run_defs = rd_def wr_def wr3_def N_VNew_Serial_def Let_def

lemmas f_defs = f_def f_copy_step_def f_reaction_step_def f_species_step_def

lemmas solver_defs = TauHybridCSolver_def solver_setup_def copy_initial_step_def trajectory_def
  init_state_step_def init_conc_step_def init_offset_step_def

lemma andThen_Ok_iff: "andThen x k = Ok r \<longleftrightarrow> (\<exists>v. x = Ok v \<and> k v = Ok r)"
  by (cases x) auto

lemma andThen_assoc: "andThen (andThen x k) h = andThen x (\<lambda>v. andThen (k v) h)"
  by (cases x) simp_all

lemma rd_Ok_iff: "rd xs i = Ok v \<longleftrightarrow> i < length xs \<and> v = xs ! i"
  by (auto simp: rd_def)

lemma wr_Ok_iff: "wr xs i v = Ok ys \<longleftrightarrow> i < length xs \<and> ys = xs[i := v]"
  by (auto simp: wr_def)

lemma for_loop_append:
  "for_loop (xs @ ys) body s = andThen (for_loop xs body s) (for_loop ys body)"
proof (induction xs arbitrary: s)
  case Nil
  show ?case by simp
next
  case (Cons i xs)
  then show ?case by (cases "body i s") simp_all
qed

lemma for_loop_single: "for_loop [n] body s = body n s"
  by (cases "body n s") simp_all

lemma for_loop_snoc: "for_loop (xs @ [n]) body s = andThen (for_loop xs body s) (body n)"
proof -
  have "for_loop [n] body = body n"
    by (rule ext) (rule for_loop_single)
  then show ?thesis
    by (simp add: for_loop_append)
qed

text \<open>The guard \<open>false\<close> keeps the body of the reconciliation loop from running.\<close>

lemma reconcile_loop_skip: "reconcile_loop ext fuel b n st = Ok st"
  by (simp add: reconcile_loop_def)

section \<open>A null simulation\<close>

text \<open>
  C10. Called with a null simulation pointer, the solver returns at once: it installs the
  handler of SIGINT and does nothing else; no buffer is written, no integrator is built,
  the flag \<open>interrupted\<close> keeps its value.
\<close>

theorem C10_null_simulation:
  "TauHybridCSolver ext fuel w None tau_tol = Ok (w\<lparr>sigint_handler_installed := True\<rparr>, None)"
  by (simp add: TauHybridCSolver_def)

section \<open>The right-hand side\<close>

text \<open>The first loop of \<open>f\<close> copies the concentrations and zeroes their derivatives.\<close>

lemma f_copy_loop:
  "for_loop [0..<n] (f_copy_step Y) (c, d) = Ok (c', d') \<Longrightarrow>
   n \<le> length Y \<and> n \<le> length c \<and> n \<le> length d \<and> length c' = length c \<and> length d' = length d \<and>
   (\<forall>i < length c. c' ! i = (if i < n then Y ! i else c ! i)) \<and>
   (\<forall>i < length d. d' ! i = (if i < n then 0 else d ! i))"
proof (induction n arbitrary: c' d')
  case 0
  then show ?case by simp
next
  case (Suc n)
  from Suc.prems obtain c1 d1 where
    l: "for_loop [0..<n] (f_copy_step Y) (c, d) = Ok (c1, d1)"
    and b: "f_copy_step Y n (c1, d1) = Ok (c', d')"
    by (auto simp: for_loop_snoc andThen_Ok_iff)
  note ih = Suc.IH [OF l]
  from b have "n < length Y" "n < length c1" "n < length d1" "c' = c1[n := Y ! n]" "d' = d1[n := 0]"
    by (auto simp: f_copy_step_def andThen_Ok_iff rd_Ok_iff wr_Ok_iff)
  with ih show ?case
    by (auto simp: nth_list_update less_Suc_eq)
qed

text \<open>The loop over the species adds one reaction's signed propensity to each derivative.\<close>

lemma f_species_loop:
  "for_loop [0..<n] (f_species_step sim r p) d = Ok d' \<Longrightarrow>
   length d' = length d \<and>
   (\<forall>s < length d. d' ! s =
      (if s < n then d ! s +
         (if species_change (reactions (model sim) ! r) ! s = 0 then 0
          else p * real_of_int (- 1 + 2 * (if species_change (reactions (model sim) ! r) ! s > 0 then 1 else 0)))
       else d ! s)) \<and>
   (n \<le> length (species_change (reactions (model sim) ! r)))"
proof (induction n arbitrary: d')
  case 0
  then show ?case by simp
next
  case (Suc n)
  from Suc.prems obtain d1 where
    l: "for_loop [0..<n] (f_species_step sim r p) d = Ok d1"
    and b: "f_species_step sim r p n d1 = Ok d'"
    by (auto simp: for_loop_snoc andThen_Ok_iff)
  note ih = Suc.IH [OF l]
  from b have n: "n < length (species_change (reactions (model sim) ! r))"
    by (auto simp: f_species_step_def andThen_Ok_iff rd_Ok_iff)
  show ?case
  proof (cases "species_change (reactions (model sim) ! r) ! n = 0")
    case True
    with b n have "d' = d1"
      by (auto simp: f_species_step_def andThen_Ok_iff rd_Ok_iff)
    with ih n True show ?thesis
      by (auto simp: less_Suc_eq)
  next
    case False
    with b n have "n < length d1"
      "d' = d1[n := d1 ! n + p * real_of_int (- 1 + 2 * (if species_change (reactions (model sim) ! r) ! n > 0 then 1 else 0))]"
      by (auto simp: f_species_step_def andThen_Ok_iff rd_Ok_iff wr_Ok_iff)
    with ih n False show ?thesis
      by (auto simp: less_Suc_eq nth_list_update)
  qed
qed

text \<open>
  The loop over the reactions sums these terms in the derivatives of the concentrations
  and leaves every other cell of \<open>dydt\<close> as it was.
\<close>

lemma f_reaction_loop:
  "for_loop [0..<k] (f_reaction_step sim conc) (Y, d) = Ok (Y', d') \<Longrightarrow>
   length d' = length d \<and>
   (\<forall>s < length d. d' ! s =
      (if s < number_species (model sim) then d ! s +
         (\<Sum>r<k. if species_change (reactions (model sim) ! r) ! s = 0 then 0
          else ODEEvaluate (propensity_function sim) r conc *
               real_of_int (- 1 + 2 * (if species_change (reactions (model sim) ! r) ! s > 0 then 1 else 0)))
       else d ! s))"
proof (induction k arbitrary: Y' d')
  case 0
  then show ?case by simp
next
  case (Suc k)
  from Suc.prems obtain Y1 d1 where
    l: "for_loop [0..<k] (f_reaction_step sim conc) (Y, d) = Ok (Y1, d1)"
    and b: "f_reaction_step sim conc k (Y1, d1) = Ok (Y', d')"
    by (auto simp: for_loop_snoc andThen_Ok_iff)
  note ih = Suc.IH [OF l]
  from b have "for_loop [0..<number_species (model sim)]
      (f_species_step sim k (ODEEvaluate (propensity_function sim) k conc)) d1 = Ok d'"
    by (auto simp: f_reaction_step_def Let_def andThen_Ok_iff)
  note sp = f_species_loop [OF this]
  from ih sp show ?case
    by (auto simp: algebra_simps)
qed

text \<open>
  \<open>f\<close> returns when the vectors are long enough for the cells that it reads and
  writes: \<open>2 * num_species + num_reactions\<close> cells of \<open>Y\<close> and \<open>num_species\<close>
  cells of \<open>dydt\<close> and of the changes of each reaction.
\<close>

lemma f_copy_loop_returns:
  "n \<le> length Y \<Longrightarrow> n \<le> length c \<Longrightarrow> n \<le> length d \<Longrightarrow>
   \<exists>c' d'. for_loop [0..<n] (f_copy_step Y) (c, d) = Ok (c', d') \<and> length c' = length c \<and> length d' = length d"
proof (induction n)
  case 0
  show ?case by simp
next
  case (Suc n)
  then obtain c1 d1 where "for_loop [0..<n] (f_copy_step Y) (c, d) = Ok (c1, d1)"
    "length c1 = length c" "length d1 = length d"
    by auto
  moreover from this Suc.prems have "f_copy_step Y n (c1, d1) = Ok (c1[n := Y ! n], d1[n := 0])"
    by (simp add: f_copy_step_def rd_def wr_def)
  ultimately show ?case
    by (simp add: for_loop_snoc)
qed

lemma f_species_loop_returns:
  "n \<le> length (species_change (reactions (model sim) ! r)) \<Longrightarrow> n \<le> length d \<Longrightarrow>
   \<exists>d'. for_loop [0..<n] (f_species_step sim r p) d = Ok d' \<and> length d' = length d"
proof (induction n)
  case 0
  show ?case by simp
next
  case (Suc n)
  then obtain d1 where "for_loop [0..<n] (f_species_step sim r p) d = Ok d1" "length d1 = length d"
    by auto
  moreover from this Suc.prems have "\<exists>d'. f_species_step sim r p n d1 = Ok d' \<and> length d' = length d1"
    by (simp add: f_species_step_def rd_def wr_def)
  ultimately show ?case
    by (auto simp: for_loop_snoc)
qed

lemma f_reaction_loop_returns:
  "2 * number_species (model sim) + k \<le> length Y \<Longrightarrow> number_species (model sim) \<le> length d \<Longrightarrow>
   (\<forall>r < k. number_species (model sim) \<le> length (species_change (reactions (model sim) ! r))) \<Longrightarrow>
   \<exists>Y' d'. for_loop [0..<k] (f_reaction_step sim conc) (Y, d) = Ok (Y', d') \<and>
      length Y' = length Y \<and> length d' = length d"
proof (induction k)
  case 0
  show ?case by simp
next
  case (Suc k)
  then obtain Y1 d1 where l: "for_loop [0..<k] (f_reaction_step sim conc) (Y, d) = Ok (Y1, d1)"
    "length Y1 = length Y" "length d1 = length d"
    by auto
  from Suc.prems l f_species_loop_returns [of "number_species (model sim)" sim k d1
      "ODEEvaluate (propensity_function sim) k conc"]
  obtain d' where "for_loop [0..<number_species (model sim)]
      (f_species_step sim k (ODEEvaluate (propensity_function sim) k conc)) d1 = Ok d'"
    "length d' = length d"
    by auto
  with Suc.prems l have "\<exists>Y'. f_reaction_step sim conc k (Y1, d1) = Ok (Y', d') \<and> length Y' = length Y1"
    by (simp add: f_reaction_step_def Let_def rd_def wr_def)
  with l \<open>length d' = length d\<close> show ?case
    by (auto simp: for_loop_snoc)
qed

lemma f_returns:
  assumes "2 * number_species (model (my_sim user_data)) + number_reactions (model (my_sim user_data)) \<le> length Y"
    and "number_species (model (my_sim user_data)) \<le> length dydt"
    and "\<forall>r < number_reactions (model (my_sim user_data)).
           number_species (model (my_sim user_data)) \<le> length (species_change (reactions (model (my_sim user_data)) ! r))"
  shows "\<exists>Y' dydt'. f t Y dydt user_data = Ok (Y', dydt', 0) \<and> length Y' = length Y \<and> length dydt' = length dydt"
proof -
  let ?sim = "my_sim user_data"
  let ?ns = "number_species (model ?sim)"
  from assms f_copy_loop_returns [of ?ns Y "replicate ?ns 0" dydt]
  obtain c1 d1 where c: "for_loop [0..<?ns] (f_copy_step Y) (replicate ?ns 0, dydt) = Ok (c1, d1)"
    "length d1 = length dydt"
    by auto
  from assms c f_reaction_loop_returns [of ?sim "number_reactions (model ?sim)" Y d1 c1]
  obtain Y' d' where "for_loop [0..<number_reactions (model ?sim)] (f_reaction_step ?sim c1) (Y, d1) = Ok (Y', d')"
    "length Y' = length Y" "length d' = length d1"
    by auto
  with c show ?thesis
    by (simp add: f_def Let_def)
qed

text \<open>
  In every call of \<open>f\<close> that returns (as it does by \<open>f_returns\<close> when the
  vectors are long enough), the derivative of the concentration of each
  species \<open>s\<close> is zeroed and then holds the sum, over the reactions \<open>r\<close> that change
  \<open>s\<close>, of the propensity of \<open>r\<close> at the concentrations \<open>Y[0..num_species)\<close> times the
  sign \<open>-1 + 2 * (change > 0)\<close> of the change: the size of the change does not enter.
\<close>

lemma f_concentration_derivative:
  assumes "f t Y dydt user_data = Ok (Y', dydt', rc)"
    and "s < number_species (model (my_sim user_data))"
  shows "dydt' ! s =
    (\<Sum>r<number_reactions (model (my_sim user_data)).
       if species_change (reactions (model (my_sim user_data)) ! r) ! s = 0 then 0
       else ODEEvaluate (propensity_function (my_sim user_data)) r
              (take (number_species (model (my_sim user_data))) Y) *
            real_of_int (- 1 + 2 * (if species_change (reactions (model (my_sim user_data)) ! r) ! s > 0
                                     then 1 else 0)))"
proof -
  let ?sim = "my_sim user_data"
  let ?ns = "number_species (model ?sim)"
  from assms(1) obtain c1 d1 where
    c: "for_loop [0..<?ns] (f_copy_step Y) (replicate ?ns 0, dydt) = Ok (c1, d1)"
    and r: "for_loop [0..<number_reactions (model ?sim)] (f_reaction_step ?sim c1) (Y, d1) = Ok (Y', dydt')"
    by (auto simp: f_def Let_def andThen_Ok_iff)
  note cp = f_copy_loop [OF c]
  from cp have c1: "c1 = take ?ns Y"
    by (auto intro!: nth_equalityI)
  from cp assms(2) have d1: "s < length d1" "d1 ! s = 0"
    by auto
  from f_reaction_loop [OF r [unfolded c1]] d1 assms(2) show ?thesis
    by simp
qed

text \<open>
  The dimerisation at \<open>A = 1\<close>, \<open>B = 1\<close>, where the propensities are \<open>1/2\<close> and \<open>1\<close>:
  the derivative of \<open>A\<close> is \<open>-1/2 + 1\<close>, with the changes \<open>-2\<close> and \<open>2\<close> of \<open>A\<close>
  counted by their signs.
\<close>

lemma f_concentration_derivative_dimer:
  "f 0 [1, 1, 0, 0, 0, 0] [9, 9, 9, 9, 9, 9] \<lparr>my_sim = dimer_sim\<rparr>
     = Ok ([1, 1, 0, 0, 1 / 2, 1], [1 / 2, - (1 / 2), 9, 9, 9, 9], 0) \<and>
   (\<Sum>r<number_reactions (model dimer_sim).
       if species_change (reactions (model dimer_sim) ! r) ! 0 = 0 then 0
       else ODEEvaluate (propensity_function dimer_sim) r
              (take (number_species (model dimer_sim)) [1, 1, 0, 0, 0, 0]) *
            real_of_int (- 1 + 2 * (if species_change (reactions (model dimer_sim) ! r) ! 0 > 0
                                     then 1 else 0))) = 1 / 2"
proof -
  have run: "f 0 [1, 1, 0, 0, 0, 0] [9, 9, 9, 9, 9, 9] \<lparr>my_sim = dimer_sim\<rparr>
     = Ok ([1, 1, 0, 0, 1 / 2, 1], [1 / 2, - (1 / 2), 9, 9, 9, 9], 0)"
    by (simp add: f_defs model_defs run_defs)
  have s: "0 < number_species (model (my_sim \<lparr>my_sim = dimer_sim\<rparr>))"
    by (simp add: model_defs)
  from f_concentration_derivative [OF run s] run show ?thesis
    by (simp cong: if_cong)
qed



text \<open>
  C2. The claim is that \<open>f\<close> stores the propensity of the reaction \<open>r\<close> into
  \<open>dydt[num_species + r]\<close> and leaves \<open>Y\<close> as it is. The code does neither: it stores
  \<open>Y[num_species + r] + propensity\<close> into \<open>rxn_offsets[rxn_offset_i]\<close>, the cell
  \<open>Y[2 * num_species + r]\<close> of the state vector, and writes no cell of \<open>dydt\<close> at or
  after \<open>num_species\<close>. For the decay model and a vector of the documented length
  \<open>num_species + num_reactions = 2\<close> that store is outside the vector; with one more
  cell \<open>f\<close> returns, with \<open>Y[2]\<close> changed from \<open>0\<close> to \<open>1/4 + 3/2\<close> and
  \<open>dydt[1]\<close> still at its old value \<open>9\<close>, not at the propensity \<open>3/2\<close>.
\<close>

theorem C2_offset_rate_not_stored:
  "f 0 [1, 1 / 4] [9, 9] \<lparr>my_sim = decay_sim\<rparr> = Fault (OutOfBounds 2 2) \<and>
   f 0 [1, 1 / 4, 0] [9, 9, 9] \<lparr>my_sim = decay_sim\<rparr>
     = Ok ([1, 1 / 4, 7 / 4], [- (3 / 2), 9, 9], 0)"
  by (simp add: f_defs model_defs run_defs)

section \<open>The vector of the integrator\<close>

text \<open>A loop that stores a value into each cell of a range fills the front of the list.\<close>

lemma wr_loop:
  "n \<le> length xs \<Longrightarrow> for_loop [0..<n] (\<lambda>i ys. wr ys i (g i)) xs = Ok (map g [0..<n] @ drop n xs)"
proof (induction n)
  case 0
  show ?case by simp
next
  case (Suc n)
  then have "n < length xs" by simp
  then have "(map g [0..<n] @ drop n xs)[n := g n] = map g [0..<n] @ g n # drop (Suc n) xs"
    by (simp add: list_update_append upd_conv_take_nth_drop)
  with Suc show ?case
    by (simp add: for_loop_snoc wr_def)
qed

lemma init_state_loop:
  "length cs = number_species (model sim) \<Longrightarrow>
   for_loop [0..<number_species (model sim)] (init_state_step sim) cs
     = Ok (map (\<lambda>sp. real (initial_population sp)) (species (model sim)))"
proof -
  assume l: "length cs = number_species (model sim)"
  have e: "init_state_step sim = (\<lambda>i ys. wr ys i (real (initial_population (species (model sim) ! i))))"
    by (intro ext) (simp add: init_state_step_def)
  have "map (\<lambda>i. real (initial_population (species (model sim) ! i))) [0..<length (species (model sim))]
        = map (\<lambda>sp. real (initial_population sp)) (species (model sim))"
    by (rule nth_equalityI) simp_all
  with l show ?thesis
    by (simp add: e wr_loop number_species_def)
qed

lemma init_conc_loop:
  "for_loop [0..<number_species (model sim)] (init_conc_step sim) (N_VNew_Serial (number_species (model sim)))
     = Ok (map (\<lambda>sp. real (initial_population sp)) (species (model sim)))"
proof -
  have e: "init_conc_step sim = init_state_step sim"
    by (intro ext) (simp add: init_conc_step_def init_state_step_def)
  show ?thesis
    unfolding e by (rule init_state_loop) (simp add: N_VNew_Serial_def)
qed

text \<open>
  C3. The claim is that the packed vector has \<open>num_species + num_reactions\<close> cells and
  that every access to an offset stays below that length. The code allocates
  \<open>N_VNew_Serial(num_species)\<close>: for every model with a reaction, the first store of an
  offset at the start of a trajectory, \<open>NV_Ith_S(y0, num_species) = log(uniform(rng))\<close>,
  is at the index \<open>num_species\<close> of a vector of \<open>num_species\<close> cells.
\<close>

theorem C3_offset_store_outside_vector:
  assumes "0 < number_reactions (model sim)"
    and "length cs = number_species (model sim)"
  shows "trajectory ext fuel traj increment (sim, cs, g)
     = Fault (OutOfBounds (int (number_species (model sim))) (number_species (model sim)))"
proof -
  let ?y1 = "map (\<lambda>sp. real (initial_population sp)) (species (model sim))"
  from assms(1) have "for_loop [number_species (model sim)..<number_species (model sim) + number_reactions (model sim)]
       (init_offset_step ext) (?y1, g)
     = Fault (OutOfBounds (int (number_species (model sim))) (number_species (model sim)))"
    by (simp add: upt_conv_Cons init_offset_step_def wr_def number_species_def split: prod.split)
  with assms(2) show ?thesis
    by (simp add: trajectory_def Let_def init_state_loop init_conc_loop)
qed

theorem C3_offset_store_outside_vector_witness:
  "0 < number_reactions (model decay_sim) \<and>
   length [0 :: real] = number_species (model decay_sim) \<and>
   trajectory euler_extern 3 0 1 (decay_sim, [0], 5489) = Fault (OutOfBounds 1 1)"
proof -
  have r: "0 < number_reactions (model decay_sim)"
    by (simp add: model_defs)
  have l: "length [0 :: real] = number_species (model decay_sim)"
    by (simp add: model_defs)
  from C3_offset_store_outside_vector [OF r l, of euler_extern 3 0 1 5489] r l show ?thesis
    by (simp add: model_defs)
qed

text \<open>The whole solver on the decay model stops at that store.\<close>

lemma solver_faults_on_decay:
  "TauHybridCSolver euler_extern fuel quiet_world (Some decay_sim) tol = Fault (OutOfBounds 1 1)"
  by (simp add: solver_defs euler_extern_def model_defs run_defs)

section \<open>One step of the step loop\<close>

lemma for_loop_preserves:
  assumes "for_loop xs body s = Ok s'"
    and "\<And>i t t'. body i t = Ok t' \<Longrightarrow> P t' = P t"
  shows "P s' = P s"
  using assms(1)
proof (induction xs arbitrary: s)
  case Nil
  then show ?case by simp
next
  case (Cons i xs)
  then obtain t where "body i s = Ok t" "for_loop xs body t = Ok s'"
    by (auto simp: andThen_Ok_iff)
  with Cons.IH assms(2) show ?case by metis
qed

lemma emit_species_step_frame:
  "emit_species_step traj i t = Ok t' \<Longrightarrow> (beside_output t', save_time t') = (beside_output t, save_time t)"
  by (auto simp: emit_species_step_def andThen_Ok_iff beside_output_def split: if_splits)

lemma emit_loop_frame:
  "emit_loop n traj increment st = Ok st' \<Longrightarrow> beside_output st' = beside_output st"
proof (induction n arbitrary: st)
  case 0
  then show ?case by simp
next
  case (Suc n)
  show ?case
  proof (cases "real_of_int (save_time st) \<le> next_time st")
    case False
    with Suc.prems show ?thesis by simp
  next
    case True
    with Suc.prems obtain t where
      b: "for_loop [0..<number_species (model (simulation st))] (emit_species_step traj) st = Ok t"
      and r: "emit_loop n traj increment
                (t\<lparr>save_time := double_to_int (real_of_int (save_time t) + increment)\<rparr>) = Ok st'"
      by (auto simp: andThen_Ok_iff)
    from for_loop_preserves [OF b, where P = "\<lambda>t. (beside_output t, save_time t)"] emit_species_step_frame
    have "beside_output t = beside_output st" by blast
    moreover from Suc.IH [OF r] have "beside_output st' = beside_output t"
      by (simp add: beside_output_def)
    ultimately show ?thesis by simp
  qed
qed

text \<open>
  What a step leaves: the integrator's results in \<open>cvode_mem\<close>, \<open>y0\<close>, \<open>next_time\<close>
  and \<open>current_time\<close>, and everything else but \<open>save_time\<close> and the output as before.
\<close>

lemma step_frame:
  assumes "step ext fuel traj increment st = Ok st'"
  shows "beside_output st' =
     beside_output (st\<lparr>cvode_mem := fst (CVode ext (cvode_mem st) (current_time (simulation st) + tau_step st) (y0 st)),
                      y0 := fst (snd (CVode ext (cvode_mem st) (current_time (simulation st) + tau_step st) (y0 st))),
                      next_time := fst (snd (snd (CVode ext (cvode_mem st) (current_time (simulation st) + tau_step st) (y0 st)))),
                      simulation := (simulation st)\<lparr>current_time :=
                         fst (snd (snd (CVode ext (cvode_mem st) (current_time (simulation st) + tau_step st) (y0 st))))\<rparr>\<rparr>)"
  using assms
  by (auto simp: step_def Let_def reconcile_loop_skip dest!: emit_loop_frame)

lemma decay_step: "step euler_extern 3 0 1 decay_locals = Ok decay_locals_after"
  by (simp add: decay_locals_after_def decay_locals_def euler_extern_def model_defs run_defs step_def
      reconcile_loop_skip emit_species_step_def f_defs double_to_int_def eval_nat_numeral)


text \<open>
  A run of the solver on \<open>idle_sim [0, 1] 1\<close> enters its step loop in \<open>idle_locals\<close>,
  and the first step from there ends in \<open>idle_locals_after\<close>.
\<close>

lemma idle_locals_reached:
  "TauHybridCSolver euler_extern fuel quiet_world (Some (idle_sim [0, 1] 1)) tol
     = andThen (main_loop fuel euler_extern fuel 0 1 idle_locals)
         (\<lambda>st. Ok (quiet_world\<lparr>sigint_handler_installed := True\<rparr>, Some (simulation st)))"
  by (simp add: solver_defs euler_extern_def model_defs run_defs idle_locals_def idle_started_def andThen_assoc)

lemma idle_step: "step euler_extern 3 0 1 idle_locals = Ok idle_locals_after"
  by (simp add: idle_locals_after_def idle_locals_def idle_started_def euler_extern_def model_defs run_defs step_def
      reconcile_loop_skip emit_species_step_def f_defs double_to_int_def eval_nat_numeral)





section \<open>Reconciliation and rejection\<close>

text \<open>
  The body that the code has for the reconciliation of one reaction, had it run: the
  loop that counts the firings ends only when the offset is negative (its \<open>break\<close>
  leaves the loop over the species, not the loop over the firings), so the branch that
  goes back to \<open>current_time\<close> and halves \<open>tau_step\<close> is never taken.
\<close>

lemma fire_species_frame:
  "fire_species rxn_i spec_i st = Ok st' \<Longrightarrow>
   tau_step st' = tau_step st \<and> next_time st' = next_time st \<and> simulation st' = simulation st"
proof (induction rxn_i spec_i st rule: fire_species.induct)
  case (1 rxn_i spec_i st)
  show ?case
  proof (cases "spec_i < number_species (model (simulation st))")
    case False
    with "1.prems" show ?thesis by (subst (asm) fire_species.simps) simp
  next
    case True
    from "1.prems" True obtain rxn sc pc pcs cs where
      r: "rd (reactions (model (simulation st))) rxn_i = Ok rxn"
         "rd (species_change rxn) spec_i = Ok sc"
         "rd (population_changes st) spec_i = Ok pc"
         "wr (population_changes st) spec_i (pc + sc) = Ok pcs"
         "rd (current_state st) spec_i = Ok cs"
      and k: "(if cs + real_of_int (pc + sc) < 0 then Ok (st\<lparr>population_changes := pcs\<rparr>)
              else fire_species rxn_i (spec_i + 1) (st\<lparr>population_changes := pcs\<rparr>)) = Ok st'"
      by (subst (asm) fire_species.simps) (auto simp: andThen_Ok_iff simp del: fire_species.simps)
    show ?thesis
    proof (cases "cs + real_of_int (pc + sc) < 0")
      case True
      with k show ?thesis by (auto simp del: fire_species.simps)
    next
      case False
      with k have "fire_species rxn_i (spec_i + 1) (st\<lparr>population_changes := pcs\<rparr>) = Ok st'"
        by (simp del: fire_species.simps)
      from "1.IH" [OF True False this] show ?thesis by simp
    qed
  qed
qed

lemma count_firings_frame:
  "count_firings n ext rxn_i rxn_state st = Ok (rs, st') \<Longrightarrow>
   rs < 0 \<and> tau_step st' = tau_step st \<and> next_time st' = next_time st \<and> simulation st' = simulation st"
proof (induction n arbitrary: rxn_state st)
  case 0
  then show ?case by simp
next
  case (Suc n)
  show ?case
  proof (cases "rxn_state \<ge> 0")
    case False
    with Suc.prems show ?thesis by simp
  next
    case True
    with Suc.prems obtain t where f: "fire_species rxn_i 0 st = Ok t"
      and r: "(case uniform ext (rng t) of (u, g') \<Rightarrow>
                count_firings n ext rxn_i (rxn_state + ln u) (t\<lparr>rng := g'\<rparr>)) = Ok (rs, st')"
      by (auto simp: andThen_Ok_iff)
    obtain u g' where ug: "uniform ext (rng t) = (u, g')"
      by (cases "uniform ext (rng t)")
    with r have "count_firings n ext rxn_i (rxn_state + ln u) (t\<lparr>rng := g'\<rparr>) = Ok (rs, st')"
      by simp
    from Suc.IH [OF this] fire_species_frame [OF f] show ?thesis by simp
  qed
qed

lemma reconcile_reaction_never_halves:
  assumes "reconcile_reaction ext fuel rxn_i st = Ok st'"
  shows "tau_step st' = tau_step st \<and> next_time st' = next_time st"
proof -
  from assms obtain rxn_state pcs rs where
    c: "count_firings fuel ext rxn_i rxn_state (st\<lparr>population_changes := pcs\<rparr>) = Ok rs"
    and k: "(if fst rs < 0 then
          andThen (for_loop [0..<number_species (model (simulation st))] (commit_step (population_changes (snd rs)))
                     (current_state (snd rs))) (\<lambda>cs.
          andThen (wr (y0 (snd rs)) (number_species (model (simulation st)) + rxn_i) (fst rs)) (\<lambda>y.
          Ok ((snd rs)\<lparr>current_state := cs, y0 := y\<rparr>)))
        else
          Ok ((snd rs)\<lparr>next_time := current_time (simulation (snd rs)),
                         tau_step := tau_step (snd rs) * 0.5\<rparr>)) = Ok st'"
    by (auto simp: reconcile_reaction_def Let_def andThen_Ok_iff)
  from c count_firings_frame [of fuel ext rxn_i rxn_state "st\<lparr>population_changes := pcs\<rparr>" "fst rs" "snd rs"]
  have n: "fst rs < 0" "tau_step (snd rs) = tau_step st" "next_time (snd rs) = next_time st"
    by auto
  with k show ?thesis
    by (auto simp: andThen_Ok_iff)
qed


text \<open>
  C1. The claim is that after every advance of the integrator the solver reconciles the
  firings of every reaction: while the offset is not negative it counts a firing and adds
  a draw \<open>ln U\<close>, then commits the changes of the populations and writes the offset
  back. The loop that the code has for this starts its condition with \<open>false &&\<close>, so
  its body runs for no reaction. In every step that completes, from any state of the step
  loop, the populations \<open>current_state\<close>, \<open>population_changes\<close> and the generator are
  as before the step (no firing is counted, no \<open>ln U\<close> is drawn, nothing is committed),
  and the packed vector, its offsets included, is the one that the integrator returned
  (no offset is written back).
\<close>

theorem C1_reconciliation_never_runs:
  assumes "step ext fuel traj increment st = Ok st'"
  shows "current_state st' = current_state st \<and> rng st' = rng st \<and>
         population_changes st' = population_changes st \<and>
         y0 st' = fst (snd (CVode ext (cvode_mem st) (current_time (simulation st) + tau_step st) (y0 st)))"
  using step_frame [OF assms] by (simp add: beside_output_def)

theorem C1_reconciliation_never_runs_witness:
  "(step euler_extern 3 0 1 idle_locals = Ok idle_locals_after \<and>
    current_state idle_locals_after = current_state idle_locals \<and>
    rng idle_locals_after = rng idle_locals \<and>
    population_changes idle_locals_after = population_changes idle_locals \<and>
    y0 idle_locals_after =
      fst (snd (CVode euler_extern (cvode_mem idle_locals)
        (current_time (simulation idle_locals) + tau_step idle_locals) (y0 idle_locals)))) \<and>
   (step euler_extern 3 0 1 decay_locals = Ok decay_locals_after \<and>
    current_state decay_locals_after = current_state decay_locals \<and>
    rng decay_locals_after = rng decay_locals \<and>
    population_changes decay_locals_after = population_changes decay_locals \<and>
    y0 decay_locals_after =
      fst (snd (CVode euler_extern (cvode_mem decay_locals)
        (current_time (simulation decay_locals) + tau_step decay_locals) (y0 decay_locals))))"
  by (rule conjI [OF conjI [OF idle_step C1_reconciliation_never_runs [OF idle_step]]
                     conjI [OF decay_step C1_reconciliation_never_runs [OF decay_step]]])



section \<open>The populations\<close>



text \<open>
  The cells of the two steps: without a reaction the population \<open>5\<close> is copied; with the
  decay the two cells of the species \<open>A\<close>, whose mode is \<open>DISCRETE\<close> (\<open>1\<close>), take
  the value \<open>-1/2\<close> of the integrator's vector.
\<close>

lemma step_output_cells:
  "map_outcome (\<lambda>st. trajectoriesODE (simulation st)) (step euler_extern 3 0 1 idle_locals) = Ok [[[5], [5]]] \<and>
   map_outcome (\<lambda>st. trajectoriesODE (simulation st)) (step euler_extern 3 0 1 decay_locals)
     = Ok [[[- (1 / 2)], [- (1 / 2)]]] \<and>
   user_mode (species (model decay_sim) ! 0) = 1"
  by (simp add: decay_step idle_step) (simp add: decay_locals_after_def idle_locals_after_def model_defs)

section \<open>The output buffer\<close>

text \<open>
  C6. The claim is that the first cell \<open>[traj][0][s]\<close> of every trajectory receives the
  initial population of \<open>s\<close>. The loop under the comment ``copy initial state for each
  trajectory'' stores into \<open>trajectoriesODE[0][0][s]\<close> only, and \<open>current_time\<close> is
  not set back between the trajectories, so the step loop of a second trajectory does
  not run. With the species \<open>A\<close> at \<open>5\<close>, no reaction, the timeline \<open>0, 1\<close> and two
  trajectories, the cells of the second trajectory are still \<open>0\<close>.
\<close>

theorem C6_second_trajectory_first_cell:
  "output_of (TauHybridCSolver euler_extern 3 quiet_world (Some (idle_sim [0, 1] 2)) tol)
     = Ok [[[5], [5]], [[0], [0]]]"
  by (simp add: output_of_def solver_defs euler_extern_def model_defs run_defs step_def
      reconcile_loop_skip emit_species_step_def f_defs double_to_int_def eval_nat_numeral)

text \<open>
  With a time step below \<open>1\<close> the conversion of \<open>save_time + increment\<close> to \<open>int\<close>
  gives \<open>save_time\<close> again, and the loop that writes the results does not end.
\<close>

lemma emit_stuck:
  "save_time st = 0 \<Longrightarrow> 0 \<le> next_time st \<Longrightarrow> y0 st = [v] \<Longrightarrow>
   number_species (model (simulation st)) = 1 \<Longrightarrow>
   trajectoriesODE (simulation st) = [[[a], [b], [c]]] \<Longrightarrow>
   emit_loop n 0 (1 / 2) st = Timeout"
proof (induction n arbitrary: st a)
  case 0
  show ?case by simp
next
  case (Suc n)
  let ?st1 = "st\<lparr>simulation := (simulation st)\<lparr>trajectoriesODE := [[[v], [b], [c]]]\<rparr>\<rparr>"
  have body: "for_loop [0..<number_species (model (simulation st))] (emit_species_step 0) st = Ok ?st1"
    using Suc.prems by (simp add: emit_species_step_def run_defs)
  have "emit_loop n 0 (1 / 2) (?st1\<lparr>save_time := 0\<rparr>) = Timeout"
    using Suc.prems by (intro Suc.IH [where a = v]) simp_all
  with body Suc.prems show ?case
    by (simp add: double_to_int_def)
qed

text \<open>
  C8. The claim is that after each step the solver writes a sample for every point
  \<open>k\<close> of the grid with \<open>k * increment \<le> next_time\<close>, moving on by one point each time,
  so that every cell is written once, with the state at its time. The code compares the
  index \<open>save_time\<close> itself with \<open>next_time\<close> and adds \<open>increment\<close> to the index.
  With the timeline \<open>0, 1/2, 1\<close> the index stays \<open>0\<close> and the run does not end,
  whatever the bound on the iterations.
\<close>

theorem C8_emission_never_ends:
  "TauHybridCSolver euler_extern fuel quiet_world (Some (idle_sim [0, 1 / 2, 1] 1)) tol = Timeout"
proof (cases fuel)
  case 0
  then show ?thesis
    by (simp add: solver_defs euler_extern_def model_defs run_defs)
next
  case (Suc n)
  then show ?thesis
    by (simp add: solver_defs euler_extern_def model_defs run_defs step_def reconcile_loop_skip
        f_defs emit_stuck del: emit_loop.simps)
qed

text \<open>
  With the timeline \<open>0, 2, 4\<close> the index goes from \<open>0\<close> to \<open>2\<close> to \<open>4\<close>: the point
  \<open>1\<close> is skipped and the store at \<open>4\<close> is outside the three points of the buffer.
\<close>

lemma emission_skips_and_overruns:
  "output_of (TauHybridCSolver euler_extern 3 quiet_world (Some (idle_sim [0, 2, 4] 1)) tol)
     = Fault (OutOfBounds 4 3)"
  by (simp add: output_of_def solver_defs euler_extern_def model_defs run_defs step_def
      reconcile_loop_skip emit_species_step_def f_defs double_to_int_def eval_nat_numeral)

section \<open>The seed\<close>

lemma map_outcome_andThen: "map_outcome h (andThen x k) = andThen x (\<lambda>v. map_outcome h (k v))"
  by (cases x) simp_all

lemma andThen_map_outcome: "andThen (map_outcome h x) k = andThen x (\<lambda>v. k (h v))"
  by (cases x) simp_all

lemma for_loop_commute:
  assumes "\<And>i t. body' i (h t) = map_outcome h (body i t)"
  shows "for_loop xs body' (h s) = map_outcome h (for_loop xs body s)"
proof (induction xs arbitrary: s)
  case Nil
  show ?case by simp
next
  case (Cons i xs)
  then show ?case
    by (cases "body i s") (simp_all add: assms)
qed

text \<open>The right-hand side reads the model and the propensities only.\<close>

lemma f_reseed: "f t Y dydt \<lparr>my_sim = reseed a sim\<rparr> = f t Y dydt \<lparr>my_sim = sim\<rparr>"
proof -
  have 1: "f_species_step (reseed a sim) = f_species_step sim"
    by (intro ext) (simp add: f_species_step_def reseed_def)
  have 2: "f_reaction_step (reseed a sim) = f_reaction_step sim"
    by (intro ext) (simp add: f_reaction_step_def 1, simp add: reseed_def)
  show ?thesis
    by (simp add: f_def 2, simp add: reseed_def)
qed

text \<open>Each part of the solver does the same with another value in \<open>random_seed\<close>.\<close>

lemma emit_species_step_reseed:
  "emit_species_step traj i (reseed_locals a st) = map_outcome (reseed_locals a) (emit_species_step traj i st)"
proof (cases "rd (y0 st) i")
  case (Ok v)
  show ?thesis
  proof (cases "wr3 (trajectoriesODE (simulation st)) traj (nat (save_time st)) i v")
    case (Ok b)
    with \<open>rd (y0 st) i = Ok v\<close> show ?thesis
      by (simp add: emit_species_step_def reseed_locals_def reseed_def)
  qed (use \<open>rd (y0 st) i = Ok v\<close> in \<open>simp_all add: emit_species_step_def reseed_locals_def reseed_def\<close>)
qed (simp_all add: emit_species_step_def reseed_locals_def)

lemma emit_loop_reseed:
  "emit_loop n traj increment (reseed_locals a st) = map_outcome (reseed_locals a) (emit_loop n traj increment st)"
proof (induction n arbitrary: st)
  case 0
  show ?case by simp
next
  case (Suc n)
  have upd: "\<And>t k. (reseed_locals a t)\<lparr>save_time := k\<rparr> = reseed_locals a (t\<lparr>save_time := k\<rparr>)"
    by (simp add: reseed_locals_def)
  have fl: "for_loop [0..<number_species (model (simulation st))] (emit_species_step traj) (reseed_locals a st)
     = map_outcome (reseed_locals a) (for_loop [0..<number_species (model (simulation st))] (emit_species_step traj) st)"
    by (rule for_loop_commute) (rule emit_species_step_reseed)
  have fields: "save_time (reseed_locals a st) = save_time st" "next_time (reseed_locals a st) = next_time st"
    "model (simulation (reseed_locals a st)) = model (simulation st)"
    "\<And>t. save_time (reseed_locals a t) = save_time t"
    by (simp_all add: reseed_locals_def reseed_def)
  show ?case
    by (simp add: fields fl andThen_map_outcome map_outcome_andThen upd Suc.IH)
qed

lemma step_reseed:
  "step ext fuel traj increment (reseed_locals a st) = map_outcome (reseed_locals a) (step ext fuel traj increment st)"
proof -
  have upd: "\<And>m y t. (reseed_locals a st)\<lparr>cvode_mem := m, y0 := y, next_time := t,
        simulation := (simulation (reseed_locals a st))\<lparr>current_time := t\<rparr>\<rparr>
     = reseed_locals a (st\<lparr>cvode_mem := m, y0 := y, next_time := t, simulation := (simulation st)\<lparr>current_time := t\<rparr>\<rparr>)"
    by (simp add: reseed_locals_def reseed_def)
  have fields: "cvode_mem (reseed_locals a st) = cvode_mem st" "y0 (reseed_locals a st) = y0 st"
    "tau_step (reseed_locals a st) = tau_step st"
    "current_time (simulation (reseed_locals a st)) = current_time (simulation st)"
    by (simp_all add: reseed_locals_def reseed_def)
  show ?thesis
    by (simp add: step_def Let_def reconcile_loop_skip fields)
       (simp add: upd [simplified] emit_loop_reseed)
qed

lemma main_loop_reseed:
  "main_loop n ext fuel traj increment (reseed_locals a st)
     = map_outcome (reseed_locals a) (main_loop n ext fuel traj increment st)"
proof (induction n arbitrary: st)
  case 0
  show ?case by simp
next
  case (Suc n)
  have fields: "current_time (simulation (reseed_locals a st)) = current_time (simulation st)"
    "end_time (simulation (reseed_locals a st)) = end_time (simulation st)"
    by (simp_all add: reseed_locals_def reseed_def)
  show ?case
    by (simp add: fields step_reseed andThen_map_outcome map_outcome_andThen Suc.IH)
qed

lemma trajectory_reseed:
  "trajectory ext fuel traj increment (reseed a sim, cs, g)
     = map_outcome (reseed_state a) (trajectory ext fuel traj increment (sim, cs, g))"
proof -
  have 1: "init_state_step (reseed a sim) = init_state_step sim"
    by (intro ext) (simp add: init_state_step_def reseed_def)
  have 2: "init_conc_step (reseed a sim) = init_conc_step sim"
    by (intro ext) (simp add: init_conc_step_def reseed_def)
  have 3: "model (reseed a sim) = model sim"
    by (simp add: reseed_def)
  have 4: "\<And>c r y m nt ts sv pc.
     \<lparr>simulation = reseed a sim, current_state = c, rng = r, y0 = y, cvode_mem = m,
      next_time = nt, tau_step = ts, save_time = sv, population_changes = pc\<rparr>
     = reseed_locals a \<lparr>simulation = sim, current_state = c, rng = r, y0 = y, cvode_mem = m,
      next_time = nt, tau_step = ts, save_time = sv, population_changes = pc\<rparr>"
    by (simp add: reseed_locals_def)
  have 5: "\<And>st. (simulation (reseed_locals a st), current_state (reseed_locals a st), rng (reseed_locals a st))
     = reseed_state a (simulation st, current_state st, rng st)"
    by (simp add: reseed_locals_def reseed_state_def)
  show ?thesis
    by (simp add: trajectory_def Let_def 1 2 3 f_reseed 4 main_loop_reseed andThen_map_outcome
        map_outcome_andThen 5)
qed

lemma traj_loop_reseed:
  "traj_loop ext fuel w increment trajs (reseed_state a p)
     = map_outcome (reseed_state a) (traj_loop ext fuel w increment trajs p)"
proof (induction trajs arbitrary: p)
  case Nil
  show ?case by simp
next
  case (Cons traj rest)
  obtain sim cs g where p: "p = (sim, cs, g)"
    by (cases p)
  have e: "reseed_state a p = (reseed a sim, cs, g)"
    by (simp add: p reseed_state_def)
  have "trajectory ext fuel traj increment (reseed_state a p)
     = map_outcome (reseed_state a) (trajectory ext fuel traj increment p)"
    unfolding e by (simp only: p trajectory_reseed)
  then show ?case
    by (simp add: andThen_map_outcome map_outcome_andThen Cons.IH)
qed

lemma copy_initial_step_reseed:
  "copy_initial_step s (reseed_state a p) = map_outcome (reseed_state a) (copy_initial_step s p)"
proof -
  obtain sim cs where p: "p = (sim, cs)"
    by (cases p)
  show ?thesis
  proof (cases "wr3 (trajectoriesODE sim) 0 0 s (real (initial_population (species (model sim) ! s)))")
    case (Ok b)
    then show ?thesis
      by (cases "wr cs s (real (initial_population (species (model sim) ! s)))")
         (simp_all add: p copy_initial_step_def reseed_state_def reseed_def)
  qed (simp_all add: p copy_initial_step_def reseed_state_def reseed_def)
qed

lemma solver_reseed:
  "TauHybridCSolver ext fuel w (Some (reseed a sim)) tol
     = map_outcome (reseed_result a) (TauHybridCSolver ext fuel w (Some sim) tol)"
proof -
  have fields: "timeline (reseed a sim) = timeline sim" "model (reseed a sim) = model sim"
    "number_trajectories (reseed a sim) = number_trajectories sim"
    by (simp_all add: reseed_def)
  have s0: "\<And>c. (reseed a sim, c) = reseed_state a (sim, c)"
    by (simp add: reseed_state_def)
  have s1: "\<And>sc g. (fst (reseed_state a sc), snd (reseed_state a sc), g) = reseed_state a (fst sc, snd sc, g)"
    by (simp add: reseed_state_def)
  have cl: "\<And>c. for_loop [0..<number_species (model sim)] copy_initial_step (reseed_state a (sim, c))
     = map_outcome (reseed_state a) (for_loop [0..<number_species (model sim)] copy_initial_step (sim, c))"
    by (rule for_loop_commute) (rule copy_initial_step_reseed)
  have r: "\<And>w1 p. (w1, Some (fst (reseed_state a p))) = reseed_result a (w1, Some (fst p))"
    by (simp add: reseed_state_def reseed_result_def)
  show ?thesis
    by (simp add: TauHybridCSolver_def solver_setup_def Let_def fields)
       (simp add: s0 cl andThen_map_outcome map_outcome_andThen s1 traj_loop_reseed r)
qed

text \<open>
  C9. The claim is that the generator is seeded from the field \<open>random_seed\<close> (from the
  device when the field is zero) and that two runs with the same nonzero seed give the same
  output. The solver declares \<open>std::mt19937_64 rng;\<close> and never reads the field. With
  the stand-in, whose generator is a counter that a seed \<open>n\<close> would start at \<open>n\<close>, the
  solver starts from the default state \<open>5489\<close> for a simulation whose seed is \<open>7\<close>,
  and not from \<open>7\<close> as the generator of the specification does.
\<close>

theorem C9_generator_not_seeded:
  "snd (snd (solver_setup euler_extern (idle_sim [0, 1] 1))) = 5489 \<and>
   random_seed (idle_sim [0, 1] 1) = 7 \<and>
   spec_seeded_rng nat 0 (idle_sim [0, 1] 1) = 7 \<and>
   snd (snd (solver_setup euler_extern (idle_sim [0, 1] 1))) \<noteq> spec_seeded_rng nat 0 (idle_sim [0, 1] 1)"
  by (simp add: solver_setup_def euler_extern_def spec_seeded_rng_def model_defs)

text \<open>
  C9, amended. The generator is default-constructed and the field \<open>random_seed\<close> is not
  read: for every simulation and every value of the field, zero included, the generator
  that the solver sets up is in the default state of the library, the result of the solver
  (outcome, world and simulation) is the result for any other value of the field with only
  the field itself differing, and the output buffer is the same.
\<close>

theorem C9_generator_default_for_every_seed:
  "snd (snd (solver_setup ext (sim\<lparr>random_seed := a\<rparr>))) = mt19937_64_default ext \<and>
   TauHybridCSolver ext fuel w (Some (sim\<lparr>random_seed := a\<rparr>)) tol
     = map_outcome (reseed_result a) (TauHybridCSolver ext fuel w (Some sim) tol) \<and>
   output_of (TauHybridCSolver ext fuel w (Some (sim\<lparr>random_seed := a\<rparr>)) tol)
     = output_of (TauHybridCSolver ext fuel w (Some sim) tol)"
proof -
  have o: "output_of (map_outcome (reseed_result a) r) = output_of r" for r
    by (cases r) (auto simp: output_of_def reseed_result_def reseed_def split: option.splits)
  have s: "TauHybridCSolver ext fuel w (Some (sim\<lparr>random_seed := a\<rparr>)) tol
     = map_outcome (reseed_result a) (TauHybridCSolver ext fuel w (Some sim) tol)"
    using solver_reseed [of ext fuel w a sim tol] by (simp add: reseed_def)
  show ?thesis
    by (simp add: s o) (simp add: solver_setup_def)
qed

end
